theory Spec2Isabelle
  imports Main "HOL-Library.Multiset"
begin

section \<open>Data model\<close>

text \<open>
  The embedded function is \<open>createFileMap\<close> (SandpackEditor/createFileMap.ts, listed in the
  blog post of 2022-06-09, lines 210--264). It folds over the array of React children and
  builds a \<open>Record<string, SandpackFile>\<close>.

  JavaScript strings are modelled as \<open>string\<close>, a property that is \<open>undefined\<close> as
  \<open>None\<close>, the object under construction as a map from paths to file descriptors.
\<close>

text \<open>The props of the nested code element: \<open>props.metastring\<close>, \<open>props.className\<close> and
  \<open>props.children\<close> (the raw text of the block, read \<open>as string\<close>).\<close>

record code_props =
  metastring :: "string option"
  className :: "string option"
  children :: string

text \<open>The props of a child element: \<open>codeSnippet.props.mdxType\<close> and
  \<open>codeSnippet.props.children\<close>. The latter is \<open>Some props\<close> when it is a single element
  (whose props are then destructured), and \<open>None\<close> when it is anything without a
  \<open>props\<close> object (undefined, a string, an array of nodes).\<close>

record snippet_props =
  mdxType :: "string option"
  code_element :: "code_props option"

text \<open>An entry of the array \<open>React.Children.toArray(children)\<close>: the array keeps strings and
  numbers as they are (a \<open>Text\<close> child, which has no \<open>props\<close>) beside the elements.\<close>

datatype node = Text string | Element snippet_props

record SandpackFile =
  code :: string
  hidden :: bool
  active :: bool

text \<open>The two errors the function throws itself, with the variable part of their messages
  (the block's text, the path), and the \<open>TypeError\<close> of the runtime on reading a property
  of \<open>undefined\<close>.\<close>

datatype error = MissingFilename string | DuplicatePath string | TypeError

section \<open>String operations of the runtime\<close>

text \<open>\<open>s.split(sep)\<close> for a one-character separator: every occurrence of the separator ends
  a token, so adjacent separators give empty tokens and the result is never empty
  (\<open>"".split(" ")\<close> is \<open>[""]\<close>). \<open>split_from cur\<close> carries the token read so far.\<close>

fun split_from :: "string \<Rightarrow> char \<Rightarrow> string \<Rightarrow> string list" where
  "split_from cur sep [] = [cur]"
| "split_from cur sep (c # cs) =
     (if c = sep then cur # split_from [] sep cs else split_from (cur @ [c]) sep cs)"

definition split :: "char \<Rightarrow> string \<Rightarrow> string list" where
  "split sep s = split_from [] sep s"

text \<open>\<open>xs.includes(x)\<close> (\<open>includes\<close> is a keyword of the theory language, hence the name).\<close>

definition list_includes :: "'a list \<Rightarrow> 'a \<Rightarrow> bool" where
  "list_includes xs x = (x \<in> set xs)"

text \<open>Truthiness of a property that is a string or \<open>undefined\<close>: the empty string is falsy.\<close>

fun truthy :: "string option \<Rightarrow> bool" where
  "truthy None = False"
| "truthy (Some s) = (s \<noteq> [])"

section \<open>createFileMap\<close>

text \<open>Lines 234--248: the path of a block without metastring, from its class name.\<close>

definition fromClassName :: "code_props \<Rightarrow> error + (string \<times> bool \<times> bool)" where
  "fromClassName props =
     (if className props = Some ''language-js'' then Inr (''/App.js'', False, False)
      else if className props = Some ''language-ts'' then Inr (''/App.tsx'', False, False)
      else if className props = Some ''language-tsx'' then Inr (''/App.tsx'', False, False)
      else if className props = Some ''language-css'' then Inr (''/styles.css'', False, False)
      else Inl (MissingFilename (children props)))"

text \<open>Lines 226--233: \<open>[name, ...params] = props.metastring.split(" ")\<close>.\<close>

definition fromMetastring :: "string \<Rightarrow> string \<times> bool \<times> bool" where
  "fromMetastring ms =
     (let toks = split (CHR '' '') ms; name = hd toks; params = tl toks
      in (''/'' @ name, list_includes params ''hidden'', list_includes params ''active''))"

text \<open>Lines 221--248: \<open>filePath\<close>, \<open>fileHidden\<close> and \<open>fileActive\<close> of a block.\<close>

definition resolve :: "code_props \<Rightarrow> error + (string \<times> bool \<times> bool)" where
  "resolve props =
     (if truthy (metastring props)
      then (case metastring props of
              Some ms \<Rightarrow> Inr (fromMetastring ms)
            | None \<Rightarrow> fromClassName props)
      else fromClassName props)"

text \<open>The callback of \<open>reduce\<close> (lines 216--261). \<open>result\<close> is the object built so far;
  a thrown error ends the fold. A text child has no \<open>props\<close>, so reading
  \<open>codeSnippet.props.mdxType\<close> throws; so does reading \<open>props.metastring\<close> when the
  child of a \<open>pre\<close> element is no element. Every \<open>filePath\<close> starts with \<open>/\<close>, hence
  names no inherited property of the object literal, and a stored descriptor is an object,
  hence truthy: the test \<open>if (result[filePath])\<close> holds exactly when the path is a key.\<close>

definition reducer ::
  "(string \<rightharpoonup> SandpackFile) \<Rightarrow> node \<Rightarrow> error + (string \<rightharpoonup> SandpackFile)" where
  "reducer result codeSnippet =
     (case codeSnippet of
        Text t \<Rightarrow> Inl TypeError
      | Element sp \<Rightarrow>
          if mdxType sp \<noteq> Some ''pre'' then Inr result
          else (case code_element sp of
                  None \<Rightarrow> Inl TypeError
                | Some props \<Rightarrow>
                    (case resolve props of
                       Inl e \<Rightarrow> Inl e
                     | Inr (filePath, fileHidden, fileActive) \<Rightarrow>
                         if result filePath \<noteq> None then Inl (DuplicatePath filePath)
                         else Inr (result(filePath \<mapsto>
                                \<lparr>code = children props, hidden = fileHidden,
                                 active = fileActive\<rparr>)))))"

text \<open>\<open>codeSnippets.reduce(callback, {})\<close>, stopping at the first error.\<close>

fun reduce :: "('a \<Rightarrow> 'b \<Rightarrow> error + 'a) \<Rightarrow> 'a \<Rightarrow> 'b list \<Rightarrow> error + 'a" where
  "reduce f acc [] = Inr acc"
| "reduce f acc (x # xs) = (case f acc x of Inl e \<Rightarrow> Inl e | Inr acc' \<Rightarrow> reduce f acc' xs)"

text \<open>The argument is the array \<open>codeSnippets = React.Children.toArray(children)\<close>.\<close>

definition createFileMap :: "node list \<Rightarrow> error + (string \<rightharpoonup> SandpackFile)" where
  "createFileMap codeSnippets = reduce reducer Map.empty codeSnippets"

text \<open>A code block as the markdown layer renders it: a \<open>pre\<close> element around one code
  element.\<close>

definition codeBlock :: "code_props \<Rightarrow> node" where
  "codeBlock props = Element \<lparr>mdxType = Some ''pre'', code_element = Some props\<rparr>"

section \<open>createFileMap on an object store\<close>

text \<open>The same function with the objects it works on made explicit. The store is the list
  of the objects allocated so far, an object reference is an index into it. The literal
  \<open>{}\<close> passed to \<open>reduce\<close> allocates a new object on every call; the callback writes
  \<open>result[filePath] = ...\<close> through the reference it was given and returns that same
  reference (\<open>return result\<close>); a thrown error leaves the store as it is at that moment.\<close>

type_synonym store = "(string \<rightharpoonup> SandpackFile) list"

definition reducer_st :: "nat \<Rightarrow> node \<Rightarrow> store \<Rightarrow> (error + nat) \<times> store" where
  "reducer_st result codeSnippet h =
     (case reducer (h ! result) codeSnippet of
        Inl e \<Rightarrow> (Inl e, h)
      | Inr obj \<Rightarrow> (Inr result, h[result := obj]))"

fun reduce_st ::
  "(nat \<Rightarrow> 'b \<Rightarrow> store \<Rightarrow> (error + nat) \<times> store) \<Rightarrow> nat \<Rightarrow> 'b list \<Rightarrow> store \<Rightarrow>
   (error + nat) \<times> store" where
  "reduce_st f acc [] h = (Inr acc, h)"
| "reduce_st f acc (x # xs) h =
     (case f acc x h of
        (Inl e, h') \<Rightarrow> (Inl e, h')
      | (Inr acc', h') \<Rightarrow> reduce_st f acc' xs h')"

definition createFileMap_st :: "node list \<Rightarrow> store \<Rightarrow> (error + nat) \<times> store" where
  "createFileMap_st codeSnippets h =
     reduce_st reducer_st (length h) codeSnippets (h @ [Map.empty])"

text \<open>What the caller sees of a run: the error, or the content of the returned object.\<close>

fun outcome :: "(error + nat) \<times> store \<Rightarrow> error + (string \<rightharpoonup> SandpackFile)" where
  "outcome (Inl e, h) = Inl e"
| "outcome (Inr a, h) = Inr (h ! a)"

section \<open>Readings the claims are compared with\<close>

text \<open>Tokens in the sense of "split on whitespace": the maximal runs of characters that
  are not whitespace (space, tab, line feed, vertical tab, form feed, carriage return).
  This follows the wording of the specification, not the code.\<close>

definition whitespace :: "char \<Rightarrow> bool" where
  "whitespace c = (c \<in> set [CHR '' '', CHR 0x09, CHR 0x0A, CHR 0x0B, CHR 0x0C, CHR 0x0D])"

fun words_from :: "string \<Rightarrow> string \<Rightarrow> string list" where
  "words_from cur [] = (if cur = [] then [] else [cur])"
| "words_from cur (c # cs) =
     (if whitespace c then (if cur = [] then [] else [cur]) @ words_from [] cs
      else words_from (cur @ [c]) cs)"

definition whitespace_tokens :: "string \<Rightarrow> string list" where
  "whitespace_tokens s = words_from [] s"

text \<open>The two words the code looks for among the tokens after the first.\<close>

definition flagWord :: "string \<Rightarrow> bool" where
  "flagWord t = (t = ''hidden'' \<or> t = ''active'')"

text \<open>\<open>toks.join(sep)\<close> for a one-character separator: the metadata line that a list of
  tokens spells.\<close>

fun join :: "char \<Rightarrow> string list \<Rightarrow> string" where
  "join sep [] = []"
| "join sep [t] = t"
| "join sep (t # u # ts) = t @ sep # join sep (u # ts)"

text \<open>The path a child contributes to the mapping, when it is a code block whose path
  resolves; \<open>paths\<close> lists them in authoring order.\<close>

fun nodePath :: "node \<Rightarrow> string option" where
  "nodePath (Text t) = None"
| "nodePath (Element sp) =
     (if mdxType sp \<noteq> Some ''pre'' then None
      else (case code_element sp of
              None \<Rightarrow> None
            | Some props \<Rightarrow>
                (case resolve props of Inl e \<Rightarrow> None | Inr (filePath, h, a) \<Rightarrow> Some filePath)))"

definition paths :: "node list \<Rightarrow> string list" where
  "paths codeSnippets = List.map_filter nodePath codeSnippets"

text \<open>An element that is not a \<open>pre\<close> wrapper.\<close>

fun unrelated :: "node \<Rightarrow> bool" where
  "unrelated (Text t) = False"
| "unrelated (Element sp) = (mdxType sp \<noteq> Some ''pre'')"

text \<open>A child of the shape the declared type \<open>React.ReactElement[]\<close> and the markdown layer
  promise: an element, and when it is a \<open>pre\<close> wrapper, one around a code element.\<close>

fun wellShaped :: "node \<Rightarrow> bool" where
  "wellShaped (Text t) = False"
| "wellShaped (Element sp) = (mdxType sp \<noteq> Some ''pre'' \<or> code_element sp \<noteq> None)"

section \<open>Facts about split and join\<close>

lemma split_from_hd_tl:
  "split_from cur sep s = (cur @ hd (split_from [] sep s)) # tl (split_from [] sep s)"
proof (induction s arbitrary: cur)
  case Nil
  show ?case by simp
next
  case (Cons c cs)
  show ?case
  proof (cases "c = sep")
    case True
    then show ?thesis by simp
  next
    case False
    have "split_from cur sep (c # cs) = split_from (cur @ [c]) sep cs"
      using False by simp
    also have "\<dots> = ((cur @ [c]) @ hd (split_from [] sep cs)) # tl (split_from [] sep cs)"
      by (rule Cons.IH)
    finally show ?thesis
      using False Cons.IH [of "[c]"] by simp
  qed
qed

lemma split_nonempty: "split sep s \<noteq> []"
  unfolding split_def by (subst split_from_hd_tl) simp

lemma split_from_token: "sep \<notin> set t \<Longrightarrow> split_from cur sep (t @ s) = split_from (cur @ t) sep s"
  by (induction t arbitrary: cur) auto

lemma split_from_join:
  "toks \<noteq> [] \<Longrightarrow> \<forall>t \<in> set toks. sep \<notin> set t \<Longrightarrow>
   split_from cur sep (join sep toks) = (cur @ hd toks) # tl toks"
proof (induction sep toks arbitrary: cur rule: join.induct)
  case (1 sep)
  then show ?case by simp
next
  case (2 sep t)
  then show ?case
    using split_from_token [of sep t cur "[]"] by simp
next
  case (3 sep t u ts)
  have t: "sep \<notin> set t" using "3.prems" by simp
  have rest: "split_from [] sep (join sep (u # ts)) = u # ts"
    using "3.IH" [of "[]"] "3.prems" by simp
  have "split_from cur sep (join sep (t # u # ts))
        = split_from (cur @ t) sep (sep # join sep (u # ts))"
    using split_from_token [OF t] by simp
  also have "\<dots> = (cur @ t) # split_from [] sep (join sep (u # ts))"
    by simp
  finally show ?case using rest by simp
qed

lemma split_join:
  "\<forall>t \<in> set (name # params). sep \<notin> set t \<Longrightarrow> split sep (join sep (name # params)) = name # params"
  using split_from_join [of "name # params" sep "[]"] by (simp add: split_def)


section \<open>Facts about the callback and the fold\<close>

lemma resolve_metastring:
  "metastring props = Some ms \<Longrightarrow> ms \<noteq> [] \<Longrightarrow>
   resolve props = Inr (''/'' @ hd (split (CHR '' '') ms),
     ''hidden'' \<in> set (tl (split (CHR '' '') ms)), ''active'' \<in> set (tl (split (CHR '' '') ms)))"
  by (simp add: resolve_def fromMetastring_def list_includes_def Let_def)

lemma reducer_codeBlock:
  "reducer result (codeBlock props) =
     (case resolve props of
        Inl e \<Rightarrow> Inl e
      | Inr (filePath, fileHidden, fileActive) \<Rightarrow>
          if result filePath \<noteq> None then Inl (DuplicatePath filePath)
          else Inr (result(filePath \<mapsto>
                 \<lparr>code = children props, hidden = fileHidden, active = fileActive\<rparr>)))"
  by (simp add: reducer_def codeBlock_def)

lemma createFileMap_single:
  "createFileMap [codeBlock props] =
     (case resolve props of
        Inl e \<Rightarrow> Inl e
      | Inr (filePath, fileHidden, fileActive) \<Rightarrow>
          Inr [filePath \<mapsto> \<lparr>code = children props, hidden = fileHidden, active = fileActive\<rparr>])"
  by (simp add: createFileMap_def reducer_codeBlock split: sum.splits)

lemma reduce_append:
  "reduce f acc (xs @ ys) = (case reduce f acc xs of Inl e \<Rightarrow> Inl e | Inr acc' \<Rightarrow> reduce f acc' ys)"
  by (induction xs arbitrary: acc) (auto split: sum.splits)

lemma paths_Cons:
  "paths (n # ns) = (case nodePath n of None \<Rightarrow> paths ns | Some p \<Rightarrow> p # paths ns)"
  by (simp add: paths_def map_filter_simps split: option.splits)

lemma paths_Nil: "paths [] = []"
  by (simp add: paths_def map_filter_simps)

lemma nodePath_codeBlock:
  "nodePath (codeBlock props) =
     (case resolve props of Inl e \<Rightarrow> None | Inr (filePath, h, a) \<Rightarrow> Some filePath)"
  by (simp add: codeBlock_def)

lemma reducer_duplicate:
  "nodePath n = Some p \<Longrightarrow> result p \<noteq> None \<Longrightarrow> reducer result n = Inl (DuplicatePath p)"
  by (cases n) (auto simp: reducer_def split: if_splits option.splits sum.splits)

lemma reducer_Inr:
  "reducer result n = Inr result' \<Longrightarrow>
     (nodePath n = None \<and> result' = result) \<or>
     (\<exists>p f. nodePath n = Some p \<and> result p = None \<and> result' = result(p \<mapsto> f))"
  by (cases n) (auto simp: reducer_def split: if_splits option.splits sum.splits)

lemma reducer_keeps:
  "reducer result n = Inr result' \<Longrightarrow> k \<in> dom result \<Longrightarrow> result' k = result k"
  using reducer_Inr [of result n result'] by auto

lemma reduce_success:
  "reduce reducer acc xs = Inr m \<Longrightarrow>
     distinct (paths xs) \<and> dom acc \<inter> set (paths xs) = {} \<and>
     dom m = dom acc \<union> set (paths xs) \<and> (\<forall>k \<in> dom acc. m k = acc k)"
proof (induction xs arbitrary: acc)
  case Nil
  then show ?case by (simp add: paths_Nil)
next
  case (Cons x xs)
  from Cons.prems obtain acc' where step: "reducer acc x = Inr acc'"
    and rest: "reduce reducer acc' xs = Inr m"
    by (auto split: sum.splits)
  from Cons.IH [OF rest] have d: "distinct (paths xs)"
    and i: "dom acc' \<inter> set (paths xs) = {}"
    and dm: "dom m = dom acc' \<union> set (paths xs)"
    and keep: "\<forall>k \<in> dom acc'. m k = acc' k"
    by blast+
  from reducer_Inr [OF step] show ?case
  proof
    assume "nodePath x = None \<and> acc' = acc"
    with d i dm keep show ?thesis by (simp add: paths_Cons)
  next
    assume "\<exists>p f. nodePath x = Some p \<and> acc p = None \<and> acc' = acc(p \<mapsto> f)"
    then obtain p f where p: "nodePath x = Some p" and fresh: "acc p = None"
      and acc': "acc' = acc(p \<mapsto> f)"
      by blast
    have da: "dom acc' = insert p (dom acc)" using acc' by simp
    have ps: "paths (x # xs) = p # paths xs" using p by (simp add: paths_Cons)
    have "p \<notin> set (paths xs)" using i da by blast
    then have 1: "distinct (paths (x # xs))" using d ps by simp
    have "p \<notin> dom acc" using fresh by blast
    then have 2: "dom acc \<inter> set (paths (x # xs)) = {}" using i da ps by auto
    have 3: "dom m = dom acc \<union> set (paths (x # xs))" using dm da ps by auto
    have 4: "\<forall>k \<in> dom acc. m k = acc k"
    proof
      fix k assume k: "k \<in> dom acc"
      then have "k \<noteq> p" using fresh by auto
      then have "acc' k = acc k" using acc' by simp
      moreover have "k \<in> dom acc'" using k da by blast
      ultimately show "m k = acc k" using keep by simp
    qed
    from 1 2 3 4 show ?thesis by blast
  qed
qed

lemma reduce_blocks:
  assumes "\<forall>b \<in> set blocks. \<exists>r. resolve b = Inr r"
    and "distinct (paths (map codeBlock blocks))"
    and "dom acc \<inter> set (paths (map codeBlock blocks)) = {}"
  shows "\<exists>m. reduce reducer acc (map codeBlock blocks) = Inr m \<and>
           (\<forall>b \<in> set blocks. \<forall>p h a. resolve b = Inr (p, h, a) \<longrightarrow>
              m p = Some \<lparr>code = children b, hidden = h, active = a\<rparr>)"
  using assms
proof (induction blocks arbitrary: acc)
  case Nil
  then show ?case by simp
next
  case (Cons b bs)
  from Cons.prems(1) obtain p h a where r: "resolve b = Inr (p, h, a)"
    by (metis list.set_intros(1) prod_cases3)
  have np: "nodePath (codeBlock b) = Some p"
    by (simp add: nodePath_codeBlock r)
  have fresh: "acc p = None" and notin: "p \<notin> set (paths (map codeBlock bs))"
    and dist: "distinct (paths (map codeBlock bs))"
    and disj: "dom acc \<inter> set (paths (map codeBlock bs)) = {}"
    using Cons.prems(2,3) by (auto simp: paths_Cons np)
  let ?f = "\<lparr>code = children b, hidden = h, active = a\<rparr>"
  let ?acc = "acc(p \<mapsto> ?f)"
  have step: "reducer acc (codeBlock b) = Inr ?acc"
    using r fresh by (simp add: reducer_codeBlock)
  have pre: "\<forall>b \<in> set bs. \<exists>r. resolve b = Inr r" using Cons.prems(1) by simp
  have disj': "dom ?acc \<inter> set (paths (map codeBlock bs)) = {}"
    using disj notin by auto
  from Cons.IH [OF pre dist disj']
  obtain m where m: "reduce reducer ?acc (map codeBlock bs) = Inr m"
    and rest: "\<forall>b \<in> set bs. \<forall>p h a. resolve b = Inr (p, h, a) \<longrightarrow>
              m p = Some \<lparr>code = children b, hidden = h, active = a\<rparr>"
    by blast
  have "p \<in> dom ?acc" by simp
  then have "m p = ?acc p" using reduce_success [OF m] by blast
  then have here: "m p = Some ?f" by simp
  have "reduce reducer acc (map codeBlock (b # bs)) = Inr m"
    using step m by simp
  moreover have "\<forall>b' \<in> set (b # bs). \<forall>p h a. resolve b' = Inr (p, h, a) \<longrightarrow>
              m p = Some \<lparr>code = children b', hidden = h, active = a\<rparr>"
    using rest here r by auto
  ultimately show ?case by blast
qed

lemma paths_codeBlocks_length:
  "\<forall>b \<in> set blocks. \<exists>r. resolve b = Inr r \<Longrightarrow> length (paths (map codeBlock blocks)) = length blocks"
  by (induction blocks) (auto simp: paths_Nil paths_Cons nodePath_codeBlock split: option.splits sum.splits)

lemma resolve_no_TypeError: "resolve props \<noteq> Inl TypeError"
  by (simp add: resolve_def fromClassName_def split: option.splits)

lemma reducer_codeBlock_no_TypeError: "reducer result (codeBlock props) \<noteq> Inl TypeError"
  using resolve_no_TypeError [of props]
  by (auto simp: reducer_codeBlock split: sum.splits prod.splits)

lemma reducer_wellShaped: "wellShaped n \<Longrightarrow> reducer result n \<noteq> Inl TypeError"
proof (cases n)
  case (Text t)
  assume "wellShaped n"
  with Text show ?thesis by simp
next
  case (Element sp)
  assume w: "wellShaped n"
  show ?thesis
  proof (cases "mdxType sp = Some ''pre''")
    case False
    with Element show ?thesis by (simp add: reducer_def)
  next
    case True
    with w Element obtain props where "code_element sp = Some props" by auto
    with True Element have "n = codeBlock props" by (simp add: codeBlock_def)
    then show ?thesis by (simp add: reducer_codeBlock_no_TypeError)
  qed
qed

lemma reduce_wellShaped:
  "\<forall>n \<in> set xs. wellShaped n \<Longrightarrow> reduce reducer acc xs \<noteq> Inl TypeError"
proof (induction xs arbitrary: acc)
  case Nil
  show ?case by simp
next
  case (Cons x xs)
  then show ?case
    using reducer_wellShaped [of x acc] by (auto split: sum.splits)
qed

lemma reducer_unrelated: "unrelated n \<Longrightarrow> reducer result n = Inr result"
  by (cases n) (auto simp: reducer_def)

lemma reduce_filter_unrelated:
  "reduce reducer acc (filter (\<lambda>n. \<not> unrelated n) xs) = reduce reducer acc xs"
  by (induction xs arbitrary: acc) (auto simp: reducer_unrelated split: sum.splits)

lemma join_nonempty: "name \<noteq> [] \<Longrightarrow> join sep (name # params) \<noteq> []"
  by (cases params) auto

lemma resolve_join:
  assumes "\<forall>t \<in> set (name # params). CHR '' '' \<notin> set t"
    and "join (CHR '' '') (name # params) \<noteq> []"
    and "metastring props = Some (join (CHR '' '') (name # params))"
  shows "resolve props = Inr (''/'' @ name, ''hidden'' \<in> set params, ''active'' \<in> set params)"
  using resolve_metastring [OF assms(3) assms(2)] split_join [OF assms(1)] by simp

lemma flagWord_hidden: "flagWord ''hidden''"
  by (simp add: flagWord_def)

lemma flagWord_active: "flagWord ''active''"
  by (simp add: flagWord_def)

lemma flagWord_no_space: "flagWord t \<Longrightarrow> CHR '' '' \<notin> set t"
  unfolding flagWord_def by (erule disjE) simp_all

lemma flagWord_nonempty: "flagWord t \<Longrightarrow> t \<noteq> []"
  unfolding flagWord_def by (erule disjE) simp_all

lemma member_filter_flagWord: "flagWord w \<Longrightarrow> (w \<in> set (filter flagWord ps)) = (w \<in> set ps)"
  by simp

lemma same_flags_same_descriptor:
  assumes t: "\<forall>t \<in> set (name # params). CHR '' '' \<notin> set t"
    and t': "\<forall>t \<in> set (name # params'). CHR '' '' \<notin> set t"
    and n: "join (CHR '' '') (name # params) \<noteq> []"
    and n': "join (CHR '' '') (name # params') \<noteq> []"
    and h: "(''hidden'' \<in> set params') = (''hidden'' \<in> set params)"
    and a: "(''active'' \<in> set params') = (''active'' \<in> set params)"
  shows "reducer result (codeBlock (props\<lparr>metastring := Some (join (CHR '' '') (name # params'))\<rparr>)) =
         reducer result (codeBlock (props\<lparr>metastring := Some (join (CHR '' '') (name # params))\<rparr>))"
proof -
  let ?p = "props\<lparr>metastring := Some (join (CHR '' '') (name # params))\<rparr>"
  let ?p' = "props\<lparr>metastring := Some (join (CHR '' '') (name # params'))\<rparr>"
  have m: "metastring ?p = Some (join (CHR '' '') (name # params))" by simp
  have m': "metastring ?p' = Some (join (CHR '' '') (name # params'))" by simp
  have c: "children ?p' = children ?p" by simp
  have r: "resolve ?p = Inr (''/'' @ name, ''hidden'' \<in> set params, ''active'' \<in> set params)"
    by (rule resolve_join [OF t n m])
  have "resolve ?p' = Inr (''/'' @ name, ''hidden'' \<in> set params', ''active'' \<in> set params')"
    by (rule resolve_join [OF t' n' m'])
  then have r': "resolve ?p' = resolve ?p"
    unfolding r h a .
  show ?thesis
    unfolding reducer_codeBlock r' c ..
qed

section \<open>Named, uniquely-pathed blocks (C1)\<close>

text \<open>Claim C1. For a sequence of code blocks (\<open>pre\<close> wrappers around a code element) that all
  have a non-empty metastring and whose resolved paths are pairwise distinct,
  \<open>createFileMap\<close> returns a mapping. Its keys are exactly the paths of the blocks, there
  are as many keys as blocks, and under the path of each block (\<open>/\<close> followed by the
  first token of its metastring) is a descriptor whose \<open>code\<close> is the block's text as it
  is, with the flags read from the remaining tokens.\<close>

theorem named_blocks_mapping:
  assumes named: "\<forall>b \<in> set blocks. truthy (metastring b)"
    and uniq: "distinct (paths (map codeBlock blocks))"
  shows "\<exists>m. createFileMap (map codeBlock blocks) = Inr m \<and>
           dom m = set (paths (map codeBlock blocks)) \<and>
           card (dom m) = length blocks \<and>
           (\<forall>b \<in> set blocks. \<forall>ms. metastring b = Some ms \<longrightarrow>
              m (''/'' @ hd (split (CHR '' '') ms)) =
                Some \<lparr>code = children b,
                      hidden = (''hidden'' \<in> set (tl (split (CHR '' '') ms))),
                      active = (''active'' \<in> set (tl (split (CHR '' '') ms)))\<rparr>)"
proof -
  have res: "\<forall>b \<in> set blocks. \<forall>ms. metastring b = Some ms \<longrightarrow>
      resolve b = Inr (''/'' @ hd (split (CHR '' '') ms),
        ''hidden'' \<in> set (tl (split (CHR '' '') ms)), ''active'' \<in> set (tl (split (CHR '' '') ms)))"
    using named resolve_metastring by fastforce
  have ok: "\<forall>b \<in> set blocks. \<exists>r. resolve b = Inr r"
  proof
    fix b assume b: "b \<in> set blocks"
    then have "truthy (metastring b)" using named by simp
    then obtain ms where "metastring b = Some ms" by (cases "metastring b") auto
    with res b show "\<exists>r. resolve b = Inr r" by blast
  qed
  from reduce_blocks [OF ok uniq, of Map.empty]
  obtain m where m: "reduce reducer Map.empty (map codeBlock blocks) = Inr m"
    and each: "\<forall>b \<in> set blocks. \<forall>p h a. resolve b = Inr (p, h, a) \<longrightarrow>
              m p = Some \<lparr>code = children b, hidden = h, active = a\<rparr>"
    by auto
  have dom: "dom m = set (paths (map codeBlock blocks))"
    using reduce_success [OF m] by simp
  have "card (dom m) = length (paths (map codeBlock blocks))"
    using dom uniq by (simp add: distinct_card)
  then have card: "card (dom m) = length blocks"
    using paths_codeBlocks_length [OF ok] by simp
  show ?thesis
    using m dom card each res unfolding createFileMap_def by blast
qed

theorem named_blocks_mapping_witness:
  "distinct (paths (map codeBlock
      [\<lparr>metastring = Some ''Index.tsx active'', className = Some ''language-tsx'', children = ''import App''\<rparr>,
       \<lparr>metastring = Some ''App.tsx'', className = Some ''language-tsx'', children = ''const App''\<rparr>])) \<and>
   (\<exists>m. createFileMap (map codeBlock
      [\<lparr>metastring = Some ''Index.tsx active'', className = Some ''language-tsx'', children = ''import App''\<rparr>,
       \<lparr>metastring = Some ''App.tsx'', className = Some ''language-tsx'', children = ''const App''\<rparr>]) = Inr m \<and>
      card (dom m) = 2 \<and>
      m ''/Index.tsx'' = Some \<lparr>code = ''import App'', hidden = False, active = True\<rparr> \<and>
      m ''/App.tsx'' = Some \<lparr>code = ''const App'', hidden = False, active = False\<rparr>)"
proof -
  let ?bs = "[\<lparr>metastring = Some ''Index.tsx active'', className = Some ''language-tsx'', children = ''import App''\<rparr>,
       \<lparr>metastring = Some ''App.tsx'', className = Some ''language-tsx'', children = ''const App''\<rparr>]"
  have named: "\<forall>b \<in> set ?bs. truthy (metastring b)" by simp
  have uniq: "distinct (paths (map codeBlock ?bs))"
    by (simp add: paths_Cons paths_Nil nodePath_codeBlock resolve_def fromMetastring_def split_def
        Let_def)
  from named_blocks_mapping [OF named uniq] obtain m
    where "createFileMap (map codeBlock ?bs) = Inr m" and "card (dom m) = length ?bs"
      and "\<forall>b \<in> set ?bs. \<forall>ms. metastring b = Some ms \<longrightarrow>
              m (''/'' @ hd (split (CHR '' '') ms)) =
                Some \<lparr>code = children b,
                      hidden = (''hidden'' \<in> set (tl (split (CHR '' '') ms))),
                      active = (''active'' \<in> set (tl (split (CHR '' '') ms)))\<rparr>"
    by blast
  then have "createFileMap (map codeBlock ?bs) = Inr m \<and> card (dom m) = 2 \<and>
      m ''/Index.tsx'' = Some \<lparr>code = ''import App'', hidden = False, active = True\<rparr> \<and>
      m ''/App.tsx'' = Some \<lparr>code = ''const App'', hidden = False, active = False\<rparr>"
    by (simp add: split_def)
  with uniq show ?thesis by blast
qed

section \<open>The metadata line (C2)\<close>

text \<open>Claim C2, as amended. For a block with a non-empty metastring, the code splits the
  metastring at every space character (and at nothing else), never gets an empty token list,
  takes the first token as the file name and puts \<open>/\<close> before it, and sets \<open>hidden\<close> and
  \<open>active\<close> exactly when that word is among the remaining tokens. The witness below is the
  two examples of the claim, \<open>App.tsx active\<close> and \<open>util.ts hidden\<close>.\<close>

theorem metastring_descriptor:
  assumes "metastring props = Some ms" and "ms \<noteq> []"
  shows "split (CHR '' '') ms \<noteq> [] \<and>
         resolve props = Inr (''/'' @ hd (split (CHR '' '') ms),
           ''hidden'' \<in> set (tl (split (CHR '' '') ms)),
           ''active'' \<in> set (tl (split (CHR '' '') ms))) \<and>
         createFileMap [codeBlock props] =
           Inr [''/'' @ hd (split (CHR '' '') ms) \<mapsto>
                \<lparr>code = children props,
                 hidden = (''hidden'' \<in> set (tl (split (CHR '' '') ms))),
                 active = (''active'' \<in> set (tl (split (CHR '' '') ms)))\<rparr>]"
  using assms by (simp add: split_nonempty createFileMap_single resolve_metastring)

theorem metastring_descriptor_witness:
  "createFileMap [codeBlock \<lparr>metastring = Some ''App.tsx active'', className = Some ''language-tsx'',
       children = ''export default 1''\<rparr>] =
     Inr [''/App.tsx'' \<mapsto> \<lparr>code = ''export default 1'', hidden = False, active = True\<rparr>] \<and>
   createFileMap [codeBlock \<lparr>metastring = Some ''util.ts hidden'', className = Some ''language-ts'',
       children = ''export const u = 1''\<rparr>] =
     Inr [''/util.ts'' \<mapsto> \<lparr>code = ''export const u = 1'', hidden = True, active = False\<rparr>]"
  using metastring_descriptor [of "\<lparr>metastring = Some ''App.tsx active'', className = Some ''language-tsx'',
       children = ''export default 1''\<rparr>" "''App.tsx active''"]
    metastring_descriptor [of "\<lparr>metastring = Some ''util.ts hidden'', className = Some ''language-ts'',
       children = ''export const u = 1''\<rparr>" "''util.ts hidden''"]
  by (simp add: split_def)

text \<open>Claim C2 as stated speaks of splitting on whitespace. A tab is whitespace and does
  not separate tokens for the code: on \<open>App.tsx<TAB>active\<close> the whitespace tokens are
  \<open>App.tsx\<close> and \<open>active\<close>, which by the claim give path \<open>/App.tsx\<close> with
  \<open>active\<close> set, while the code takes the whole line as the file name and sets no flag.\<close>

theorem metastring_tab_counterexample:
  "createFileMap [codeBlock \<lparr>metastring = Some (''App.tsx'' @ [CHR 0x09] @ ''active''),
       className = Some ''language-tsx'', children = ''x''\<rparr>] =
     Inr [''/App.tsx'' @ [CHR 0x09] @ ''active'' \<mapsto> \<lparr>code = ''x'', hidden = False, active = False\<rparr>] \<and>
   whitespace_tokens (''App.tsx'' @ [CHR 0x09] @ ''active'') = [''App.tsx'', ''active'']"
  by (simp add: createFileMap_single resolve_def fromMetastring_def split_def list_includes_def
      whitespace_tokens_def whitespace_def)

section \<open>The language lookup (C3)\<close>

text \<open>Claim C3. For a block without metastring the path comes from the class name, which
  carries the language tag as \<open>language-<tag>\<close>: \<open>js\<close> gives \<open>/App.js\<close>, \<open>ts\<close> and
  \<open>tsx\<close> give \<open>/App.tsx\<close>, \<open>css\<close> gives \<open>/styles.css\<close>, with both flags false. With
  any other class name, or none, the callback raises \<open>MissingFilename\<close> (carrying the
  block's text), whatever the mapping built so far; and it raises \<open>MissingFilename\<close> only
  then.\<close>

theorem language_lookup:
  assumes "metastring props = None"
  shows "(className props = Some ''language-js'' \<longrightarrow>
            createFileMap [codeBlock props] =
              Inr [''/App.js'' \<mapsto> \<lparr>code = children props, hidden = False, active = False\<rparr>]) \<and>
         (className props = Some ''language-ts'' \<longrightarrow>
            createFileMap [codeBlock props] =
              Inr [''/App.tsx'' \<mapsto> \<lparr>code = children props, hidden = False, active = False\<rparr>]) \<and>
         (className props = Some ''language-tsx'' \<longrightarrow>
            createFileMap [codeBlock props] =
              Inr [''/App.tsx'' \<mapsto> \<lparr>code = children props, hidden = False, active = False\<rparr>]) \<and>
         (className props = Some ''language-css'' \<longrightarrow>
            createFileMap [codeBlock props] =
              Inr [''/styles.css'' \<mapsto> \<lparr>code = children props, hidden = False, active = False\<rparr>]) \<and>
         (className props \<notin> {Some ''language-js'', Some ''language-ts'', Some ''language-tsx'',
                               Some ''language-css''} \<longrightarrow>
            reducer result (codeBlock props) = Inl (MissingFilename (children props))) \<and>
         ((\<exists>c. reducer result (codeBlock props) = Inl (MissingFilename c)) \<longleftrightarrow>
            className props \<notin> {Some ''language-js'', Some ''language-ts'', Some ''language-tsx'',
                                 Some ''language-css''})"
  using assms
  by (auto simp: createFileMap_single reducer_codeBlock resolve_def fromClassName_def)

theorem language_lookup_witness:
  "createFileMap [codeBlock \<lparr>metastring = None, className = Some ''language-css'', children = ''body {}''\<rparr>] =
     Inr [''/styles.css'' \<mapsto> \<lparr>code = ''body {}'', hidden = False, active = False\<rparr>] \<and>
   reducer Map.empty (codeBlock \<lparr>metastring = None, className = Some ''language-py'', children = ''pass''\<rparr>) =
     Inl (MissingFilename ''pass'') \<and>
   reducer Map.empty (codeBlock \<lparr>metastring = None, className = None, children = ''text''\<rparr>) =
     Inl (MissingFilename ''text'')"
  using language_lookup [of "\<lparr>metastring = None, className = Some ''language-css'', children = ''body {}''\<rparr>" Map.empty]
    language_lookup [of "\<lparr>metastring = None, className = Some ''language-py'', children = ''pass''\<rparr>" Map.empty]
    language_lookup [of "\<lparr>metastring = None, className = None, children = ''text''\<rparr>" Map.empty]
  by simp

section \<open>Duplicate paths (C4)\<close>

text \<open>Claim C4. A block whose path is already a key of the mapping being built makes the
  callback raise \<open>DuplicatePath\<close> with that path; so does \<open>createFileMap\<close> on any
  sequence that continues, with such a block, a prefix on which it succeeds. A successful
  step of the callback leaves every existing entry as it was. Hence, when \<open>createFileMap\<close>
  succeeds, the paths of the blocks of its input are pairwise distinct and are exactly the
  keys of the mapping, one key per block.\<close>

theorem duplicate_path_is_error:
  "(nodePath b = Some p \<and> result p \<noteq> None \<longrightarrow> reducer result b = Inl (DuplicatePath p)) \<and>
   (createFileMap xs = Inr m \<and> nodePath b = Some p \<and> p \<in> dom m \<longrightarrow>
      createFileMap (xs @ b # ys) = Inl (DuplicatePath p)) \<and>
   (reducer result b = Inr result' \<longrightarrow> (\<forall>k \<in> dom result. result' k = result k)) \<and>
   (createFileMap xs = Inr m \<longrightarrow>
      distinct (paths xs) \<and> dom m = set (paths xs) \<and> card (dom m) = length (paths xs))"
proof (intro conjI impI)
  assume "nodePath b = Some p \<and> result p \<noteq> None"
  then show "reducer result b = Inl (DuplicatePath p)"
    by (simp add: reducer_duplicate)
next
  assume a: "createFileMap xs = Inr m \<and> nodePath b = Some p \<and> p \<in> dom m"
  then have "reducer m b = Inl (DuplicatePath p)"
    by (auto intro: reducer_duplicate)
  with a show "createFileMap (xs @ b # ys) = Inl (DuplicatePath p)"
    by (simp add: createFileMap_def reduce_append)
next
  assume "reducer result b = Inr result'"
  then show "\<forall>k \<in> dom result. result' k = result k"
    using reducer_keeps by blast
next
  assume a: "createFileMap xs = Inr m"
  then have s: "distinct (paths xs) \<and> dom m = set (paths xs)"
    using reduce_success [of Map.empty xs m] by (simp add: createFileMap_def)
  then show "distinct (paths xs)" and "dom m = set (paths xs)" by simp_all
  from s show "card (dom m) = length (paths xs)" by (simp add: distinct_card)
qed

theorem duplicate_path_is_error_witness:
  "createFileMap
     [codeBlock \<lparr>metastring = None, className = Some ''language-tsx'', children = ''a''\<rparr>,
      codeBlock \<lparr>metastring = None, className = Some ''language-tsx'', children = ''b''\<rparr>] =
   Inl (DuplicatePath ''/App.tsx'')"
proof -
  let ?a = "codeBlock \<lparr>metastring = None, className = Some ''language-tsx'', children = ''a''\<rparr>"
  let ?b = "codeBlock \<lparr>metastring = None, className = Some ''language-tsx'', children = ''b''\<rparr>"
  let ?m = "[''/App.tsx'' \<mapsto> \<lparr>code = ''a'', hidden = False, active = False\<rparr>]"
  have 1: "createFileMap [?a] = Inr ?m"
    by (simp add: createFileMap_single resolve_def fromClassName_def)
  have 2: "nodePath ?b = Some ''/App.tsx''"
    by (simp add: nodePath_codeBlock resolve_def fromClassName_def)
  have 3: "''/App.tsx'' \<in> dom ?m" by simp
  from duplicate_path_is_error [of ?b "''/App.tsx''" Map.empty "[?a]" ?m "[]" Map.empty] 1 2 3
  have "createFileMap ([?a] @ ?b # []) = Inl (DuplicatePath ''/App.tsx'')" by blast
  then show ?thesis by simp
qed

section \<open>The errors that can be raised (C5)\<close>

text \<open>Claim C5, as amended. On a sequence of elements in which every \<open>pre\<close> wrapper holds a
  code element, \<open>createFileMap\<close> returns a mapping or raises \<open>MissingFilename\<close> or
  \<open>DuplicatePath\<close>, and nothing else. Other malformed input is not rejected: a non-empty
  metastring always resolves, whatever tokens it holds, and an element that is not a
  \<open>pre\<close> wrapper leaves the mapping as it is.\<close>

theorem only_two_errors:
  "((\<forall>n \<in> set codeSnippets. wellShaped n) \<longrightarrow>
      (\<exists>m. createFileMap codeSnippets = Inr m) \<or>
      (\<exists>c. createFileMap codeSnippets = Inl (MissingFilename c)) \<or>
      (\<exists>p. createFileMap codeSnippets = Inl (DuplicatePath p))) \<and>
   (truthy (metastring props) \<longrightarrow> (\<exists>r. resolve props = Inr r)) \<and>
   (unrelated n \<longrightarrow> reducer result n = Inr result)"
proof (intro conjI impI)
  assume shaped: "\<forall>n \<in> set codeSnippets. wellShaped n"
  show "(\<exists>m. createFileMap codeSnippets = Inr m) \<or>
        (\<exists>c. createFileMap codeSnippets = Inl (MissingFilename c)) \<or>
        (\<exists>p. createFileMap codeSnippets = Inl (DuplicatePath p))"
  proof (cases "createFileMap codeSnippets")
    case (Inr m)
    then show ?thesis by blast
  next
    case (Inl e)
    moreover have "e \<noteq> TypeError"
      using reduce_wellShaped [OF shaped, of Map.empty] Inl by (auto simp: createFileMap_def)
    ultimately show ?thesis by (cases e) auto
  qed
next
  assume "truthy (metastring props)"
  then obtain ms where "metastring props = Some ms" and "ms \<noteq> []"
    by (cases "metastring props") auto
  from resolve_metastring [OF this] show "\<exists>r. resolve props = Inr r"
    by blast
next
  assume "unrelated n"
  then show "reducer result n = Inr result"
    by (rule reducer_unrelated)
qed

theorem only_two_errors_witness:
  "(\<exists>m. createFileMap [Element \<lparr>mdxType = Some ''p'', code_element = None\<rparr>,
        codeBlock \<lparr>metastring = Some ''App.tsx bogus'', className = None, children = ''a''\<rparr>] = Inr m) \<and>
   (\<exists>c. createFileMap [codeBlock \<lparr>metastring = None, className = Some ''language-py'', children = ''b''\<rparr>] =
        Inl (MissingFilename c)) \<and>
   (\<exists>r. resolve \<lparr>metastring = Some ''App.tsx bogus'', className = None, children = ''a''\<rparr> = Inr r) \<and>
   reducer Map.empty (Element \<lparr>mdxType = Some ''p'', code_element = None\<rparr>) = Inr Map.empty"
proof -
  let ?p = "Element \<lparr>mdxType = Some ''p'', code_element = None\<rparr>"
  let ?b = "\<lparr>metastring = Some ''App.tsx bogus'', className = None, children = ''a''\<rparr>"
  let ?xs = "[?p, codeBlock ?b]"
  let ?ys = "[codeBlock \<lparr>metastring = None, className = Some ''language-py'', children = ''b''\<rparr>]"
  have x: "\<forall>n \<in> set ?xs. wellShaped n" by (simp add: codeBlock_def)
  have y: "\<forall>n \<in> set ?ys. wellShaped n" by (simp add: codeBlock_def)
  have t: "truthy (metastring ?b)" by simp
  have u: "unrelated ?p" by simp
  have nx: "createFileMap ?xs \<noteq> Inl (MissingFilename c)" "createFileMap ?xs \<noteq> Inl (DuplicatePath p)" for c p
    by (simp_all add: createFileMap_def reducer_def codeBlock_def resolve_def fromMetastring_def
        split_def list_includes_def)
  have ny: "createFileMap ?ys \<noteq> Inr m" "createFileMap ?ys \<noteq> Inl (DuplicatePath p)" for m p
    by (simp_all add: createFileMap_def reducer_def codeBlock_def resolve_def fromClassName_def)
  from only_two_errors [of ?xs ?b ?p Map.empty] x t u nx
  have 1: "(\<exists>m. createFileMap ?xs = Inr m) \<and> (\<exists>r. resolve ?b = Inr r) \<and>
           reducer Map.empty ?p = Inr Map.empty"
    by blast
  from only_two_errors [of ?ys ?b ?p Map.empty] y ny
  have 2: "\<exists>c. createFileMap ?ys = Inl (MissingFilename c)" by blast
  from 1 2 show ?thesis by blast
qed

text \<open>Claim C5 as stated covers every sequence of children. A text child has no \<open>props\<close>,
  so reading \<open>codeSnippet.props.mdxType\<close> fails with a \<open>TypeError\<close>, a third error.\<close>

theorem text_child_counterexample:
  "createFileMap [Text ''stray text''] = Inl TypeError"
  by (simp add: createFileMap_def reducer_def)

section \<open>Children that are not code blocks (C6)\<close>

text \<open>Claim C6, as amended. Removing from any input sequence all the elements whose
  \<open>mdxType\<close> is not \<open>pre\<close> does not change the result of \<open>createFileMap\<close>, mapping or
  error: such elements, wherever they stand, never affect the result.\<close>

theorem unrelated_elements_ignored:
  "createFileMap (filter (\<lambda>n. \<not> unrelated n) codeSnippets) = createFileMap codeSnippets"
  by (simp add: createFileMap_def reduce_filter_unrelated)

theorem unrelated_elements_ignored_witness:
  "createFileMap
     [Element \<lparr>mdxType = Some ''p'', code_element = None\<rparr>,
      codeBlock \<lparr>metastring = Some ''App.tsx'', className = Some ''language-tsx'', children = ''a''\<rparr>,
      Element \<lparr>mdxType = None, code_element = None\<rparr>] =
   createFileMap
     [codeBlock \<lparr>metastring = Some ''App.tsx'', className = Some ''language-tsx'', children = ''a''\<rparr>]"
  using unrelated_elements_ignored [of
     "[Element \<lparr>mdxType = Some ''p'', code_element = None\<rparr>,
      codeBlock \<lparr>metastring = Some ''App.tsx'', className = Some ''language-tsx'', children = ''a''\<rparr>,
      Element \<lparr>mdxType = None, code_element = None\<rparr>]"]
  by (simp add: codeBlock_def)

text \<open>Claim C6 as stated includes stray text among the ignored children. A text child
  before a block turns the result from a mapping into a \<open>TypeError\<close>.\<close>

theorem stray_text_counterexample:
  "createFileMap [Text ''note'',
      codeBlock \<lparr>metastring = Some ''App.tsx'', className = Some ''language-tsx'', children = ''a''\<rparr>] =
     Inl TypeError \<and>
   createFileMap
     [codeBlock \<lparr>metastring = Some ''App.tsx'', className = Some ''language-tsx'', children = ''a''\<rparr>] =
     Inr [''/App.tsx'' \<mapsto> \<lparr>code = ''a'', hidden = False, active = False\<rparr>]"
  by (simp add: createFileMap_def reducer_def codeBlock_def resolve_def fromMetastring_def
      split_def list_includes_def)

section \<open>Flag order and unknown tokens (C7)\<close>

text \<open>Claim C7. Take a non-empty metadata line spelled by a file name and further tokens
  (tokens hold no space). Permuting the tokens after the first gives the same outcome of the
  callback on the block (the same descriptor under the same path, or the same error), and
  so does any change of these tokens that keeps the occurrences of \<open>hidden\<close> and
  \<open>active\<close>, that is, adding or removing other tokens.\<close>

theorem flag_order_irrelevant:
  assumes "\<forall>t \<in> set (name # params @ params'). CHR '' '' \<notin> set t"
    and "join (CHR '' '') (name # params) \<noteq> []"
    and "join (CHR '' '') (name # params') \<noteq> []"
  shows "(mset params' = mset params \<longrightarrow>
            reducer result (codeBlock (props\<lparr>metastring := Some (join (CHR '' '') (name # params'))\<rparr>)) =
            reducer result (codeBlock (props\<lparr>metastring := Some (join (CHR '' '') (name # params))\<rparr>))) \<and>
         (filter flagWord params' = filter flagWord params \<longrightarrow>
            reducer result (codeBlock (props\<lparr>metastring := Some (join (CHR '' '') (name # params'))\<rparr>)) =
            reducer result (codeBlock (props\<lparr>metastring := Some (join (CHR '' '') (name # params))\<rparr>)))"
proof -
  have t: "\<forall>t \<in> set (name # params). CHR '' '' \<notin> set t"
    and t': "\<forall>t \<in> set (name # params'). CHR '' '' \<notin> set t"
    using assms(1) by auto
  note same = same_flags_same_descriptor [OF t t' assms(2) assms(3)]
  show ?thesis
  proof (intro conjI impI)
    assume "mset params' = mset params"
    then have s: "set params' = set params" by (rule mset_eq_setD)
    show "reducer result (codeBlock (props\<lparr>metastring := Some (join (CHR '' '') (name # params'))\<rparr>)) =
          reducer result (codeBlock (props\<lparr>metastring := Some (join (CHR '' '') (name # params))\<rparr>))"
      by (rule same) (simp_all only: s)
  next
    assume f: "filter flagWord params' = filter flagWord params"
    have mem: "(w \<in> set params') = (w \<in> set params)" if "flagWord w" for w
      using member_filter_flagWord [OF that, of params'] member_filter_flagWord [OF that, of params]
      unfolding f by blast
    show "reducer result (codeBlock (props\<lparr>metastring := Some (join (CHR '' '') (name # params'))\<rparr>)) =
          reducer result (codeBlock (props\<lparr>metastring := Some (join (CHR '' '') (name # params))\<rparr>))"
      by (rule same) (rule mem [OF flagWord_hidden], rule mem [OF flagWord_active])
  qed
qed

theorem flag_order_irrelevant_witness:
  "reducer Map.empty (codeBlock \<lparr>metastring = Some ''App.tsx active hidden'', className = None, children = ''a''\<rparr>) =
   reducer Map.empty (codeBlock \<lparr>metastring = Some ''App.tsx hidden active'', className = None, children = ''a''\<rparr>) \<and>
   reducer Map.empty (codeBlock \<lparr>metastring = Some ''App.tsx foo active bar'', className = None, children = ''a''\<rparr>) =
   reducer Map.empty (codeBlock \<lparr>metastring = Some ''App.tsx active'', className = None, children = ''a''\<rparr>)"
proof -
  let ?props = "\<lparr>metastring = None, className = None, children = ''a''\<rparr>"
  have sp1: "\<forall>t \<in> set (''App.tsx'' # [''hidden'', ''active''] @ [''active'', ''hidden'']). CHR '' '' \<notin> set t"
    by simp
  have ne1: "join (CHR '' '') (''App.tsx'' # [''hidden'', ''active'']) \<noteq> []"
    and ne1': "join (CHR '' '') (''App.tsx'' # [''active'', ''hidden'']) \<noteq> []"
    by simp_all
  have perm: "mset [''active'', ''hidden''] = mset [''hidden'', ''active'']"
    by (simp add: add_mset_commute)
  have sp2: "\<forall>t \<in> set (''App.tsx'' # [''active''] @ [''foo'', ''active'', ''bar'']). CHR '' '' \<notin> set t"
    by simp
  have ne2: "join (CHR '' '') (''App.tsx'' # [''active'']) \<noteq> []"
    and ne2': "join (CHR '' '') (''App.tsx'' # [''foo'', ''active'', ''bar'']) \<noteq> []"
    by simp_all
  have flt: "filter flagWord [''foo'', ''active'', ''bar''] = filter flagWord [''active'']"
    by (simp add: flagWord_def)
  from flag_order_irrelevant [OF sp1 ne1 ne1', of Map.empty ?props] perm
  have 1: "reducer Map.empty (codeBlock (?props\<lparr>metastring := Some (join (CHR '' '') (''App.tsx'' # [''active'', ''hidden'']))\<rparr>)) =
           reducer Map.empty (codeBlock (?props\<lparr>metastring := Some (join (CHR '' '') (''App.tsx'' # [''hidden'', ''active'']))\<rparr>))"
    by blast
  from flag_order_irrelevant [OF sp2 ne2 ne2', of Map.empty ?props] flt
  have 2: "reducer Map.empty (codeBlock (?props\<lparr>metastring := Some (join (CHR '' '') (''App.tsx'' # [''foo'', ''active'', ''bar'']))\<rparr>)) =
           reducer Map.empty (codeBlock (?props\<lparr>metastring := Some (join (CHR '' '') (''App.tsx'' # [''active'']))\<rparr>))"
    by blast
  from 1 2 show ?thesis by simp
qed

section \<open>Repeated invocation (C8)\<close>

lemma reduce_st_reducer:
  "a < length h \<Longrightarrow>
   \<exists>obj. reduce_st reducer_st a xs h =
           (map_sum id (\<lambda>m. a) (reduce reducer (h ! a) xs), h[a := obj]) \<and>
         (\<forall>m. reduce reducer (h ! a) xs = Inr m \<longrightarrow> obj = m)"
proof (induction xs arbitrary: h)
  case Nil
  have "reduce_st reducer_st a [] h = (map_sum id (\<lambda>m. a) (reduce reducer (h ! a) []), h[a := h ! a])"
    by simp
  then show ?case by auto
next
  case (Cons x xs)
  show ?case
  proof (cases "reducer (h ! a) x")
    case (Inl e)
    then have "reduce_st reducer_st a (x # xs) h =
        (map_sum id (\<lambda>m. a) (reduce reducer (h ! a) (x # xs)), h[a := h ! a])"
      by (simp add: reducer_st_def)
    moreover have "\<forall>m. reduce reducer (h ! a) (x # xs) \<noteq> Inr m"
      using Inl by simp
    ultimately show ?thesis by blast
  next
    case (Inr m1)
    let ?h = "h[a := m1]"
    have len: "a < length ?h" using Cons.prems by simp
    have at: "?h ! a = m1" using Cons.prems by simp
    from Cons.IH [OF len] obtain obj where
      run: "reduce_st reducer_st a xs ?h =
              (map_sum id (\<lambda>m. a) (reduce reducer (?h ! a) xs), ?h[a := obj])"
      and res: "\<forall>m. reduce reducer (?h ! a) xs = Inr m \<longrightarrow> obj = m"
      by blast
    have "reduce_st reducer_st a (x # xs) h = reduce_st reducer_st a xs ?h"
      using Inr by (simp add: reducer_st_def)
    also have "\<dots> = (map_sum id (\<lambda>m. a) (reduce reducer (h ! a) (x # xs)), h[a := obj])"
      using run Inr at by simp
    finally have "reduce_st reducer_st a (x # xs) h =
        (map_sum id (\<lambda>m. a) (reduce reducer (h ! a) (x # xs)), h[a := obj])" .
    moreover have "\<forall>m. reduce reducer (h ! a) (x # xs) = Inr m \<longrightarrow> obj = m"
      using res Inr at by simp
    ultimately show ?thesis by blast
  qed
qed

lemma createFileMap_st_run:
  "\<exists>obj. createFileMap_st xs h = (map_sum id (\<lambda>m. length h) (createFileMap xs), h @ [obj]) \<and>
         (\<forall>m. createFileMap xs = Inr m \<longrightarrow> obj = m)"
proof -
  let ?h = "h @ [Map.empty]"
  have "length h < length ?h" by simp
  from reduce_st_reducer [OF this, of xs] obtain obj where
    "reduce_st reducer_st (length h) xs ?h =
       (map_sum id (\<lambda>m. length h) (reduce reducer (?h ! length h) xs), ?h[length h := obj])"
    and "\<forall>m. reduce reducer (?h ! length h) xs = Inr m \<longrightarrow> obj = m"
    by blast
  then have "createFileMap_st xs h = (map_sum id (\<lambda>m. length h) (createFileMap xs), h @ [obj])"
    and "\<forall>m. createFileMap xs = Inr m \<longrightarrow> obj = m"
    by (simp_all add: createFileMap_st_def createFileMap_def)
  then show ?thesis by blast
qed

lemma outcome_createFileMap_st: "outcome (createFileMap_st xs h) = createFileMap xs"
proof -
  from createFileMap_st_run [of xs h] obtain obj where
    run: "createFileMap_st xs h = (map_sum id (\<lambda>m. length h) (createFileMap xs), h @ [obj])"
    and res: "\<forall>m. createFileMap xs = Inr m \<longrightarrow> obj = m"
    by blast
  show ?thesis
  proof (cases "createFileMap xs")
    case (Inl e)
    with run show ?thesis by simp
  next
    case (Inr m)
    with run res show ?thesis by simp
  qed
qed

lemma store_createFileMap_st:
  "\<exists>obj. snd (createFileMap_st xs h) = h @ [obj]"
  using createFileMap_st_run [of xs h] by auto

text \<open>Claim C8. Run \<open>createFileMap\<close> on an input in any store, and run it again on the same
  input in the store the first run left behind: the caller sees the same outcome both
  times, the same mapping or the same error, namely the value of the function
  \<open>createFileMap\<close> of the input alone. A run allocates one object, the mapping it builds,
  and leaves every object that existed before as it was.\<close>

theorem createFileMap_repeatable:
  "outcome (createFileMap_st codeSnippets (snd (createFileMap_st codeSnippets h))) =
     outcome (createFileMap_st codeSnippets h) \<and>
   outcome (createFileMap_st codeSnippets h) = createFileMap codeSnippets \<and>
   take (length h) (snd (createFileMap_st codeSnippets h)) = h \<and>
   length (snd (createFileMap_st codeSnippets h)) = Suc (length h)"
proof -
  obtain obj where "snd (createFileMap_st codeSnippets h) = h @ [obj]"
    using store_createFileMap_st by blast
  then show ?thesis by (simp add: outcome_createFileMap_st)
qed

theorem createFileMap_repeatable_witness:
  "outcome (createFileMap_st
      [codeBlock \<lparr>metastring = Some ''App.tsx'', className = None, children = ''a''\<rparr>]
      (snd (createFileMap_st
        [codeBlock \<lparr>metastring = Some ''App.tsx'', className = None, children = ''a''\<rparr>] []))) =
   Inr [''/App.tsx'' \<mapsto> \<lparr>code = ''a'', hidden = False, active = False\<rparr>] \<and>
   outcome (createFileMap_st
      [codeBlock \<lparr>metastring = None, className = None, children = ''b''\<rparr>]
      (snd (createFileMap_st
        [codeBlock \<lparr>metastring = None, className = None, children = ''b''\<rparr>] []))) =
   Inl (MissingFilename ''b'')"
  using createFileMap_repeatable
      [of "[codeBlock \<lparr>metastring = Some ''App.tsx'', className = None, children = ''a''\<rparr>]" "[]"]
    createFileMap_repeatable
      [of "[codeBlock \<lparr>metastring = None, className = None, children = ''b''\<rparr>]" "[]"]
  by (simp add: createFileMap_single resolve_def fromMetastring_def fromClassName_def split_def
      list_includes_def)

section \<open>The empty metastring (C9)\<close>

text \<open>Claim C9. A block whose metastring is the empty string is handled exactly as the same
  block without metastring: the path comes from the class name, and an unrecognised class
  name raises \<open>MissingFilename\<close>.\<close>

theorem empty_metastring_is_absent:
  assumes "metastring props = Some []"
  shows "reducer result (codeBlock props) = reducer result (codeBlock (props\<lparr>metastring := None\<rparr>)) \<and>
         resolve props = fromClassName props \<and>
         (className props \<notin> {Some ''language-js'', Some ''language-ts'', Some ''language-tsx'',
                               Some ''language-css''} \<longrightarrow>
          reducer result (codeBlock props) = Inl (MissingFilename (children props)))"
  using assms by (simp add: reducer_codeBlock resolve_def fromClassName_def)

theorem empty_metastring_is_absent_witness:
  "createFileMap [codeBlock \<lparr>metastring = Some [], className = Some ''language-css'', children = ''a''\<rparr>] =
     Inr [''/styles.css'' \<mapsto> \<lparr>code = ''a'', hidden = False, active = False\<rparr>] \<and>
   createFileMap [codeBlock \<lparr>metastring = Some [], className = Some ''language-py'', children = ''b''\<rparr>] =
     Inl (MissingFilename ''b'')"
  using empty_metastring_is_absent [of "\<lparr>metastring = Some [], className = Some ''language-css'', children = ''a''\<rparr>" Map.empty]
   empty_metastring_is_absent [of "\<lparr>metastring = Some [], className = Some ''language-py'', children = ''b''\<rparr>" Map.empty]
  by (simp add: createFileMap_def fromClassName_def reducer_codeBlock)

section \<open>A flag word in first position (C10)\<close>

text \<open>Claim C10. When the metadata line consists of flag words only, the first one is the
  file name and not a flag: the path is \<open>/\<close> followed by it, and the flags come from the
  remaining tokens alone. In particular the line \<open>hidden\<close> (or \<open>active\<close>) alone gives
  the path \<open>/hidden\<close> (or \<open>/active\<close>) with both flags false.\<close>

theorem flag_word_first_is_filename:
  assumes "flagWord name"
    and "\<forall>t \<in> set params. flagWord t"
    and "metastring props = Some (join (CHR '' '') (name # params))"
  shows "resolve props = Inr (''/'' @ name, ''hidden'' \<in> set params, ''active'' \<in> set params) \<and>
         (params = [] \<longrightarrow>
            createFileMap [codeBlock props] =
              Inr [''/'' @ name \<mapsto> \<lparr>code = children props, hidden = False, active = False\<rparr>])"
proof -
  have "\<forall>t \<in> set (name # params). CHR '' '' \<notin> set t"
    using assms(1,2) flagWord_no_space by simp
  moreover have "join (CHR '' '') (name # params) \<noteq> []"
    using flagWord_nonempty [OF assms(1)] by (rule join_nonempty)
  ultimately have "resolve props =
      Inr (''/'' @ name, ''hidden'' \<in> set params, ''active'' \<in> set params)"
    using assms(3) by (rule resolve_join)
  then show ?thesis by (simp add: createFileMap_single)
qed

theorem flag_word_first_is_filename_witness:
  "createFileMap [codeBlock \<lparr>metastring = Some ''hidden'', className = None, children = ''a''\<rparr>] =
     Inr [''/hidden'' \<mapsto> \<lparr>code = ''a'', hidden = False, active = False\<rparr>] \<and>
   createFileMap [codeBlock \<lparr>metastring = Some ''active'', className = None, children = ''b''\<rparr>] =
     Inr [''/active'' \<mapsto> \<lparr>code = ''b'', hidden = False, active = False\<rparr>] \<and>
   resolve \<lparr>metastring = Some ''hidden hidden'', className = None, children = ''c''\<rparr> =
     Inr (''/hidden'', True, False)"
proof -
  have none: "\<forall>t \<in> set []. flagWord t" by simp
  have one: "\<forall>t \<in> set [''hidden'']. flagWord t" by (simp add: flagWord_hidden)
  have 1: "createFileMap [codeBlock \<lparr>metastring = Some ''hidden'', className = None, children = ''a''\<rparr>] =
     Inr [''/hidden'' \<mapsto> \<lparr>code = ''a'', hidden = False, active = False\<rparr>]"
    using flag_word_first_is_filename [OF flagWord_hidden none,
        of "\<lparr>metastring = Some ''hidden'', className = None, children = ''a''\<rparr>"]
    by simp
  have 2: "createFileMap [codeBlock \<lparr>metastring = Some ''active'', className = None, children = ''b''\<rparr>] =
     Inr [''/active'' \<mapsto> \<lparr>code = ''b'', hidden = False, active = False\<rparr>]"
    using flag_word_first_is_filename [OF flagWord_active none,
        of "\<lparr>metastring = Some ''active'', className = None, children = ''b''\<rparr>"]
    by simp
  have 3: "resolve \<lparr>metastring = Some ''hidden hidden'', className = None, children = ''c''\<rparr> =
     Inr (''/hidden'', True, False)"
    using flag_word_first_is_filename [OF flagWord_hidden one,
        of "\<lparr>metastring = Some ''hidden hidden'', className = None, children = ''c''\<rparr>"]
    by simp
  from 1 2 3 show ?thesis by blast
qed

end
